theory Spec2Isabelle
  imports Main "HOL-Library.Sublist"
begin

section \<open>Python string primitives used by the generators\<close>

text \<open>The line feed character (code 10), the newline of the Python string literals.\<close>

abbreviation nl :: string where
  "nl \<equiv> [CHR 0x0A]"

text \<open>\<^verbatim>\<open>sep.join(parts)\<close>.\<close>

fun str_join :: "string \<Rightarrow> string list \<Rightarrow> string" where
  "str_join sep [] = []"
| "str_join sep [x] = x"
| "str_join sep (x # y # ys) = x @ sep @ str_join sep (y # ys)"

text \<open>\<^verbatim>\<open>sub in s\<close> on strings: \<open>sub\<close> occurs in \<open>s\<close> as a contiguous run.\<close>

fun str_contains :: "string \<Rightarrow> string \<Rightarrow> bool" where
  "str_contains sub [] = (sub = [])"
| "str_contains sub (c # cs) = (prefix sub (c # cs) \<or> str_contains sub cs)"

text \<open>
  The text that follows the first occurrence of \<open>sub\<close> in \<open>s\<close>
  (\<^verbatim>\<open>s[s.find(sub) + len(sub):]\<close>), or \<open>None\<close> when \<open>sub\<close> does not occur.
\<close>

fun after_first :: "string \<Rightarrow> string \<Rightarrow> string option" where
  "after_first sub [] = (if sub = [] then Some [] else None)"
| "after_first sub (c # cs) =
     (if prefix sub (c # cs) then Some (drop (length sub) (c # cs)) else after_first sub cs)"

text \<open>
  \<open>text_before a b s\<close>: the script \<open>s\<close> contains the statement \<open>a\<close> and, somewhere
  after the end of the first occurrence of \<open>a\<close>, the statement \<open>b\<close>.
\<close>

definition text_before :: "string \<Rightarrow> string \<Rightarrow> string \<Rightarrow> bool" where
  "text_before a b s = (case after_first a s of None \<Rightarrow> False | Some r \<Rightarrow> str_contains b r)"

section \<open>Metadata as the inspector returns it\<close>

text \<open>
  One entry of \<^verbatim>\<open>inspector.get_indexes\<close>: the keys \<^verbatim>\<open>name\<close>, \<^verbatim>\<open>column_names\<close> and
  \<^verbatim>\<open>unique\<close> are read with \<^verbatim>\<open>index[...]\<close>; \<^verbatim>\<open>mysql_type\<close> is read with
  \<^verbatim>\<open>index.get\<close>, so it may be missing.
\<close>

record index_info =
  index_name :: string
  column_names :: "string list"
  unique :: bool
  mysql_type :: "string option"

text \<open>
  One entry of \<^verbatim>\<open>inspector.get_foreign_keys\<close>. The keys \<^verbatim>\<open>onupdate\<close> and \<^verbatim>\<open>ondelete\<close>
  are tested with \<^verbatim>\<open>'onupdate' in fk\<close>: \<open>None\<close> is a missing key.
\<close>

record fk_info =
  fk_name :: string
  constrained_columns :: "string list"
  referred_table :: string
  referred_columns :: "string list"
  onupdate :: "string option"
  ondelete :: "string option"

text \<open>
  The answers of the SQLAlchemy inspector and engine for one schema snapshot.
  \<open>get_table_options\<close> returns a dictionary, kept as an association list.
  \<open>compile_create_table t\<close> stands for
  \<^verbatim>\<open>str(sa.schema.CreateTable(sa.Table(t, self.metadata, autoload_with=self.engine)).compile(self.engine))\<close>,
  text that the generators embed without looking into it.
  The generators contain no exception handler, so an exception raised inside one of these calls
  leaves every method unchanged; the model describes the runs in which the calls answer.
\<close>

record inspector =
  get_table_names :: "string list"
  get_indexes :: "string \<Rightarrow> string option \<Rightarrow> index_info list"
  get_foreign_keys :: "string \<Rightarrow> string option \<Rightarrow> fk_info list"
  get_table_options :: "string \<Rightarrow> (string \<times> string) list"
  compile_create_table :: "string \<Rightarrow> string"

section \<open>The generator classes\<close>

text \<open>
  The three subclasses of \<^verbatim>\<open>BaseDDLGenerator\<close>. The MySQL and SQL Server classes are those
  of \<^verbatim>\<open>expert/ddl/mysql.py\<close> and \<^verbatim>\<open>expert/ddl/mssql.py\<close>, the PostgreSQL class is the one
  of \<^verbatim>\<open>db_structure_extractor.py\<close>, which holds the same text of all three.
\<close>

datatype generator = PostgreSQLDDLGenerator | MySQLDDLGenerator | MSSQLDDLGenerator

text \<open>
  What a call can raise: the \<^verbatim>\<open>ValueError\<close> of \<^verbatim>\<open>create_ddl_generator\<close>, the only
  \<^verbatim>\<open>raise\<close> of the source, or an exception \<open>x\<close> raised inside SQLAlchemy, which no
  handler of the source catches.
\<close>

datatype 'x error = ValueError string | Raised 'x

text \<open>\<^verbatim>\<open>BaseDDLGenerator.get_schema_name\<close>.\<close>

definition get_schema_name :: "string \<Rightarrow> string option" where
  "get_schema_name table_name =
     (if CHR ''.'' \<in> set table_name
      then Some (takeWhile (\<lambda>c. c \<noteq> CHR ''.'') table_name)
      else None)"

text \<open>
  \<^verbatim>\<open>get_table_ddl\<close> of the three classes. Only the MySQL class reads the table options.
\<close>

fun get_table_ddl :: "generator \<Rightarrow> inspector \<Rightarrow> string \<Rightarrow> string" where
  "get_table_ddl PostgreSQLDDLGenerator insp table_name = compile_create_table insp table_name"
| "get_table_ddl MSSQLDDLGenerator insp table_name = compile_create_table insp table_name"
| "get_table_ddl MySQLDDLGenerator insp table_name =
     (let table_info = get_table_options insp table_name;
          table_options =
            (if table_info \<noteq> [] then
               (case map_of table_info ''mysql_engine'' of
                  Some v \<Rightarrow> [''ENGINE='' @ v] | None \<Rightarrow> []) @
               (case map_of table_info ''mysql_charset'' of
                  Some v \<Rightarrow> [''CHARACTER SET '' @ v] | None \<Rightarrow> []) @
               (case map_of table_info ''mysql_collate'' of
                  Some v \<Rightarrow> [''COLLATE '' @ v] | None \<Rightarrow> [])
             else []);
          ddl = compile_create_table insp table_name
      in if table_options \<noteq> [] then ddl @ '' '' @ str_join '' '' table_options else ddl)"

text \<open>
  \<^verbatim>\<open>get_indexes_ddl\<close>: one statement per index, in the inspector's order.
\<close>

fun get_indexes_ddl :: "generator \<Rightarrow> inspector \<Rightarrow> string \<Rightarrow> string list" where
  "get_indexes_ddl PostgreSQLDDLGenerator insp table_name =
     (let schema = get_schema_name table_name in
      map (\<lambda>index.
             let columns = column_names index;
                 unique_kw = (if unique index then ''UNIQUE '' else '''')
             in ''CREATE '' @ unique_kw @ ''INDEX '' @ index_name index @ '' ON '' @ table_name @
                '' ('' @ str_join '', '' columns @ '');'')
          (get_indexes insp table_name schema))"
| "get_indexes_ddl MySQLDDLGenerator insp table_name =
     (let schema = get_schema_name table_name in
      map (\<lambda>index.
             let columns = column_names index;
                 unique_kw = (if unique index then ''UNIQUE '' else '''');
                 index_type = (case mysql_type index of Some k \<Rightarrow> k | None \<Rightarrow> ''BTREE'')
             in ''CREATE '' @ unique_kw @ ''INDEX '' @ index_name index @ '' ON '' @ table_name @
                '' ('' @ str_join '', '' columns @ '') USING '' @ index_type @ '';'')
          (get_indexes insp table_name schema))"
| "get_indexes_ddl MSSQLDDLGenerator insp table_name =
     (let schema = get_schema_name table_name in
      map (\<lambda>index.
             let columns = column_names index;
                 unique_kw = (if unique index then ''UNIQUE '' else '''')
             in ''CREATE '' @ unique_kw @ ''INDEX '' @ index_name index @ '' ON '' @ table_name @
                '' ('' @ str_join '', '' columns @ '') WITH (ONLINE = ON);'')
          (get_indexes insp table_name schema))"

text \<open>
  \<^verbatim>\<open>get_foreign_keys_ddl\<close>. Only the MySQL class renders the actions; its statement
  has a space before the action list even when the list is empty.
\<close>

fun get_foreign_keys_ddl :: "generator \<Rightarrow> inspector \<Rightarrow> string \<Rightarrow> string list" where
  "get_foreign_keys_ddl PostgreSQLDDLGenerator insp table_name =
     (let schema = get_schema_name table_name in
      map (\<lambda>fk.
             ''ALTER TABLE '' @ table_name @ '' ADD CONSTRAINT '' @ fk_name fk @ '' '' @
             ''FOREIGN KEY ('' @ str_join '', '' (constrained_columns fk) @ '') '' @
             ''REFERENCES '' @ referred_table fk @ '' ('' @ str_join '', '' (referred_columns fk) @ '');'')
          (get_foreign_keys insp table_name schema))"
| "get_foreign_keys_ddl MySQLDDLGenerator insp table_name =
     (let schema = get_schema_name table_name in
      map (\<lambda>fk.
             let options =
                   (case onupdate fk of Some a \<Rightarrow> [''ON UPDATE '' @ a] | None \<Rightarrow> []) @
                   (case ondelete fk of Some a \<Rightarrow> [''ON DELETE '' @ a] | None \<Rightarrow> [])
             in ''ALTER TABLE '' @ table_name @ '' ADD CONSTRAINT '' @ fk_name fk @ '' '' @
                ''FOREIGN KEY ('' @ str_join '', '' (constrained_columns fk) @ '') '' @
                ''REFERENCES '' @ referred_table fk @ '' ('' @ str_join '', '' (referred_columns fk) @ '') '' @
                str_join '' '' options @ '';'')
          (get_foreign_keys insp table_name schema))"
| "get_foreign_keys_ddl MSSQLDDLGenerator insp table_name =
     (let schema = get_schema_name table_name in
      map (\<lambda>fk.
             ''ALTER TABLE '' @ table_name @ '' ADD CONSTRAINT '' @ fk_name fk @ '' '' @
             ''FOREIGN KEY ('' @ str_join '', '' (constrained_columns fk) @ '') '' @
             ''REFERENCES '' @ referred_table fk @ '' ('' @ str_join '', '' (referred_columns fk) @ '');'')
          (get_foreign_keys insp table_name schema))"

text \<open>
  The loop of \<^verbatim>\<open>get_complete_ddl\<close>, the same text in the three classes: for each table, in
  the order of \<^verbatim>\<open>get_table_names\<close>, the table statement, then its index statements, then
  its foreign-key statements, each group closed by a line feed entry.
\<close>

fun complete_loop :: "generator \<Rightarrow> inspector \<Rightarrow> string list \<Rightarrow> string list \<Rightarrow> string list" where
  "complete_loop g insp [] ddl_parts = ddl_parts"
| "complete_loop g insp (table_name # rest) ddl_parts =
     (let ddl_parts = ddl_parts @ [get_table_ddl g insp table_name];
          ddl_parts = ddl_parts @ [nl];
          indexes = get_indexes_ddl g insp table_name;
          ddl_parts = (if indexes \<noteq> [] then (ddl_parts @ indexes) @ [nl] else ddl_parts);
          foreign_keys = get_foreign_keys_ddl g insp table_name;
          ddl_parts = (if foreign_keys \<noteq> [] then (ddl_parts @ foreign_keys) @ [nl] else ddl_parts)
      in complete_loop g insp rest ddl_parts)"

text \<open>The list \<^verbatim>\<open>ddl_parts\<close> at the \<^verbatim>\<open>return\<close> of \<^verbatim>\<open>get_complete_ddl\<close>.\<close>

fun complete_ddl_parts :: "generator \<Rightarrow> inspector \<Rightarrow> string list" where
  "complete_ddl_parts PostgreSQLDDLGenerator insp =
     complete_loop PostgreSQLDDLGenerator insp (get_table_names insp) []"
| "complete_ddl_parts MySQLDDLGenerator insp =
     complete_loop MySQLDDLGenerator insp (get_table_names insp) [''SET FOREIGN_KEY_CHECKS=0;'' @ nl]
       @ [''SET FOREIGN_KEY_CHECKS=1;'' @ nl]"
| "complete_ddl_parts MSSQLDDLGenerator insp =
     complete_loop MSSQLDDLGenerator insp (get_table_names insp) [''SET NOCOUNT ON;'' @ nl]"

definition get_complete_ddl :: "generator \<Rightarrow> inspector \<Rightarrow> string" where
  "get_complete_ddl g insp = str_join nl (complete_ddl_parts g insp)"

text \<open>
  \<^verbatim>\<open>BaseDDLGenerator.__init__\<close>, which every class inherits unchanged. Its body is
  SQLAlchemy calls: \<^verbatim>\<open>sa.create_engine(connection_string)\<close>, then \<^verbatim>\<open>inspect(self.engine)\<close>.
  They are the parameter \<open>connect\<close>: for a connection string, either the exception raised
  inside the library or the inspector obtained. The object built is the class with its
  inspector.
\<close>

definition init ::
  "(string \<Rightarrow> 'x + inspector) \<Rightarrow> generator \<Rightarrow> string \<Rightarrow> 'x error + generator \<times> inspector" where
  "init connect cls connection_string =
     (case connect connection_string of
        Inl x \<Rightarrow> Inl (Raised x)
      | Inr insp \<Rightarrow> Inr (cls, insp))"

text \<open>
  \<^verbatim>\<open>create_ddl_generator\<close>: the object of the class chosen, built from the connection
  string, or the exception that leaves the call.
\<close>

definition create_ddl_generator ::
  "(string \<Rightarrow> 'x + inspector) \<Rightarrow> string \<Rightarrow> 'x error + generator \<times> inspector" where
  "create_ddl_generator connect connection_string =
     (if str_contains ''postgresql'' connection_string
        then init connect PostgreSQLDDLGenerator connection_string
      else if str_contains ''mysql'' connection_string
        then init connect MySQLDDLGenerator connection_string
      else if str_contains ''mssql'' connection_string
        then init connect MSSQLDDLGenerator connection_string
      else Inl (ValueError ''Unsupported database type. Use PostgreSQL, MySQL, or MSSQL.''))"

section \<open>Derived notions used to state the properties\<close>

text \<open>
  What one pass of the loop of \<^verbatim>\<open>get_complete_ddl\<close> appends to \<^verbatim>\<open>ddl_parts\<close> for
  the table \<open>t\<close>.
\<close>

definition table_block :: "generator \<Rightarrow> inspector \<Rightarrow> string \<Rightarrow> string list" where
  "table_block g insp t =
     [get_table_ddl g insp t, nl] @
     (if get_indexes_ddl g insp t \<noteq> [] then get_indexes_ddl g insp t @ [nl] else []) @
     (if get_foreign_keys_ddl g insp t \<noteq> [] then get_foreign_keys_ddl g insp t @ [nl] else [])"

text \<open>The entries a class puts before and after the loop.\<close>

definition preamble :: "generator \<Rightarrow> string list" where
  "preamble g =
     (case g of
        PostgreSQLDDLGenerator \<Rightarrow> []
      | MySQLDDLGenerator \<Rightarrow> [''SET FOREIGN_KEY_CHECKS=0;'' @ nl]
      | MSSQLDDLGenerator \<Rightarrow> [''SET NOCOUNT ON;'' @ nl])"

definition postamble :: "generator \<Rightarrow> string list" where
  "postamble g =
     (case g of
        PostgreSQLDDLGenerator \<Rightarrow> []
      | MySQLDDLGenerator \<Rightarrow> [''SET FOREIGN_KEY_CHECKS=1;'' @ nl]
      | MSSQLDDLGenerator \<Rightarrow> [])"

text \<open>
  The table option clauses as the specification words them: one clause for each of the
  three fields that is present, in the order engine, character set, collation.
\<close>

definition option_clauses :: "(string \<times> string) list \<Rightarrow> string list" where
  "option_clauses table_info =
     (case map_of table_info ''mysql_engine'' of Some v \<Rightarrow> [''ENGINE='' @ v] | None \<Rightarrow> []) @
     (case map_of table_info ''mysql_charset'' of Some v \<Rightarrow> [''CHARACTER SET '' @ v] | None \<Rightarrow> []) @
     (case map_of table_info ''mysql_collate'' of Some v \<Rightarrow> [''COLLATE '' @ v] | None \<Rightarrow> [])"

text \<open>
  The foreign-key statement of the specification, without its action clauses and its closing
  semicolon, and the action clauses with \<^verbatim>\<open>ON UPDATE\<close> first.
\<close>

definition fk_head :: "string \<Rightarrow> fk_info \<Rightarrow> string" where
  "fk_head table_name fk =
     ''ALTER TABLE '' @ table_name @ '' ADD CONSTRAINT '' @ fk_name fk @
     '' FOREIGN KEY ('' @ str_join '', '' (constrained_columns fk) @
     '') REFERENCES '' @ referred_table fk @ '' ('' @ str_join '', '' (referred_columns fk) @ '')''"

definition action_clauses :: "fk_info \<Rightarrow> string" where
  "action_clauses fk =
     (case (onupdate fk, ondelete fk) of
        (None, None) \<Rightarrow> []
      | (Some u, None) \<Rightarrow> ''ON UPDATE '' @ u
      | (None, Some d) \<Rightarrow> ''ON DELETE '' @ d
      | (Some u, Some d) \<Rightarrow> ''ON UPDATE '' @ u @ '' ON DELETE '' @ d)"

section \<open>A schema snapshot for concrete runs\<close>

text \<open>
  Two tables, \<^verbatim>\<open>orders\<close> and \<^verbatim>\<open>customers\<close>; \<^verbatim>\<open>orders.customer_id\<close> references
  \<^verbatim>\<open>customers.id\<close>, and the inspector lists the referencing table first.
\<close>

definition shop :: inspector where
  "shop = \<lparr>
     get_table_names = [''orders'', ''customers''],
     get_indexes = (\<lambda>t s.
       if t = ''orders'' then
         [\<lparr>index_name = ''ix_orders_customer'', column_names = [''customer_id''],
           unique = False, mysql_type = None\<rparr>]
       else if t = ''customers'' then
         [\<lparr>index_name = ''uq_customers_email'', column_names = [''email'', ''id''],
           unique = True, mysql_type = Some ''HASH''\<rparr>]
       else []),
     get_foreign_keys = (\<lambda>t s.
       if t = ''orders'' then
         [\<lparr>fk_name = ''fk_orders_customer'', constrained_columns = [''customer_id''],
           referred_table = ''customers'', referred_columns = [''id''],
           onupdate = Some ''CASCADE'', ondelete = Some ''SET NULL''\<rparr>]
       else []),
     get_table_options = (\<lambda>t.
       if t = ''orders'' then [(''mysql_engine'', ''InnoDB''), (''mysql_charset'', ''utf8mb4'')]
       else []),
     compile_create_table = (\<lambda>t.
       if t = ''orders'' then ''CREATE TABLE orders (id INTEGER, customer_id INTEGER)''
       else if t = ''customers'' then ''CREATE TABLE customers (id INTEGER, email TEXT)''
       else [])
   \<rparr>"

text \<open>The same schema with the referenced table listed first, and with no table listed.\<close>

definition shop_sorted :: inspector where
  "shop_sorted = shop\<lparr>get_table_names := [''customers'', ''orders'']\<rparr>"

definition no_tables :: inspector where
  "no_tables = shop\<lparr>get_table_names := []\<rparr>"

text \<open>
  A second inspector that answers as \<open>shop\<close> does on the listed tables and differently on a
  table that is not listed.
\<close>

definition shop_again :: inspector where
  "shop_again = shop\<lparr>
     compile_create_table := (\<lambda>t. if t = ''audit'' then ''CREATE TABLE audit (id INTEGER)''
                                   else compile_create_table shop t),
     get_table_options := (\<lambda>t. if t = ''audit'' then [(''mysql_engine'', ''MyISAM'')]
                                else get_table_options shop t)\<rparr>"

text \<open>
  A library answer for concrete runs: a string without \<^verbatim>\<open>://\<close> is refused as not being a
  URL, any other string reaches the schema \<open>shop\<close>.
\<close>

definition shop_connect :: "string \<Rightarrow> string + inspector" where
  "shop_connect connection_string =
     (if str_contains ''://'' connection_string then Inr shop else Inl ''ArgumentError'')"

section \<open>Facts about the string primitives\<close>

lemma str_contains_sublist: "str_contains sub s = sublist sub s"
  by (induction s) (simp_all add: sublist_Cons_right)

lemma str_contains_iff: "str_contains sub s \<longleftrightarrow> (\<exists>pre post. s = pre @ sub @ post)"
  by (simp add: str_contains_sublist sublist_def)

lemma after_first_prefix: "prefix a s \<Longrightarrow> after_first a s = Some (drop (length a) s)"
  by (cases s) simp_all

lemma after_first_step: "\<not> prefix a (c # cs) \<Longrightarrow> after_first a (c # cs) = after_first a cs"
  by simp

lemma after_first_sound: "after_first a s = Some r \<Longrightarrow> \<exists>pre. s = pre @ a @ r"
proof (induction s)
  case Nil
  then show ?case by (simp split: if_splits)
next
  case (Cons c cs)
  show ?case
  proof (cases "prefix a (c # cs)")
    case True
    then obtain zs where zs: "c # cs = a @ zs" by (auto simp: prefix_def)
    from after_first_prefix[OF True] Cons.prems have "r = drop (length a) (c # cs)"
      by simp
    also have "\<dots> = zs" unfolding zs by simp
    finally have "c # cs = [] @ a @ r" using zs by simp
    then show ?thesis by blast
  next
    case False
    with Cons.prems have "after_first a cs = Some r" by simp
    then obtain pre where "cs = pre @ a @ r" using Cons.IH by blast
    then have "c # cs = (c # pre) @ a @ r" by simp
    then show ?thesis by blast
  qed
qed

lemma after_first_complete:
  "s = pre @ a @ rest \<Longrightarrow> \<exists>r. after_first a s = Some r \<and> suffix rest r"
proof (induction pre arbitrary: s)
  case Nil
  then have "prefix a s" by (simp add: prefix_def)
  from after_first_prefix[OF this] Nil show ?case by simp
next
  case (Cons p pre)
  then have s: "s = p # (pre @ a @ rest)" by simp
  show ?case
  proof (cases "prefix a s")
    case True
    then obtain zs where zs: "s = a @ zs" by (auto simp: prefix_def)
    have af: "after_first a s = Some (drop (length a) s)" by (rule after_first_prefix[OF True])
    from zs have d: "drop (length a) s = zs" by simp
    have "length s = length a + length zs" using zs by simp
    moreover have "length s = Suc (length pre + length a + length rest)" using s by simp
    ultimately have "length rest \<le> length zs" by simp
    moreover have "suffix rest s" unfolding s suffix_def by (rule exI[of _ "p # pre @ a"]) simp
    moreover have "suffix zs s" using zs by (simp add: suffixI)
    ultimately have "suffix rest zs"
      by (metis suffix_length_suffix)
    with af d show ?thesis by simp
  next
    case False
    with s have "after_first a s = after_first a (pre @ a @ rest)" by simp
    with Cons.IH[OF refl] show ?thesis by simp
  qed
qed

lemma text_before_iff:
  "text_before a b s \<longleftrightarrow> (\<exists>pre mid post. s = pre @ a @ mid @ b @ post)"
proof
  assume "text_before a b s"
  then obtain r where r: "after_first a s = Some r" and c: "str_contains b r"
    by (auto simp: text_before_def split: option.splits)
  from after_first_sound[OF r] obtain pre where "s = pre @ a @ r" by blast
  moreover from c obtain mid post where "r = mid @ b @ post"
    by (auto simp: str_contains_iff)
  ultimately show "\<exists>pre mid post. s = pre @ a @ mid @ b @ post" by blast
next
  assume "\<exists>pre mid post. s = pre @ a @ mid @ b @ post"
  then obtain pre mid post where "s = pre @ a @ (mid @ b @ post)" by auto
  from after_first_complete[OF this] obtain r where
    r: "after_first a s = Some r" and suf: "suffix (mid @ b @ post) r" by blast
  from suf obtain x where "r = x @ mid @ b @ post" by (auto simp: suffix_def)
  then have "r = (x @ mid) @ b @ post" by simp
  then have "str_contains b r" unfolding str_contains_iff by blast
  with r show "text_before a b s" by (simp add: text_before_def)
qed

lemma str_join_Cons: "ys \<noteq> [] \<Longrightarrow> str_join sep (x # ys) = x @ sep @ str_join sep ys"
  by (cases ys) simp_all

lemma str_join_append:
  "xs \<noteq> [] \<Longrightarrow> ys \<noteq> [] \<Longrightarrow> str_join sep (xs @ ys) = str_join sep xs @ sep @ str_join sep ys"
proof (induction xs)
  case Nil
  then show ?case by simp
next
  case (Cons x xs)
  show ?case
  proof (cases "xs = []")
    case True
    with Cons.prems show ?thesis by (simp add: str_join_Cons)
  next
    case False
    with Cons show ?thesis by (simp add: str_join_Cons)
  qed
qed

lemma str_join_mem: "x \<in> set xs \<Longrightarrow> \<exists>p s. str_join sep xs = p @ x @ s"
proof (induction xs)
  case Nil
  then show ?case by simp
next
  case (Cons y ys)
  show ?case
  proof (cases "ys = []")
    case True
    with Cons.prems have "str_join sep (y # ys) = [] @ x @ []" by simp
    then show ?thesis by blast
  next
    case False
    then have j: "str_join sep (y # ys) = y @ sep @ str_join sep ys" by (rule str_join_Cons)
    show ?thesis
    proof (cases "x = y")
      case True
      with j have "str_join sep (y # ys) = [] @ x @ (sep @ str_join sep ys)" by simp
      then show ?thesis by blast
    next
      case False
      with Cons.prems have "x \<in> set ys" by simp
      then obtain p s where "str_join sep ys = p @ x @ s" using Cons.IH by blast
      with j have "str_join sep (y # ys) = (y @ sep @ p) @ x @ s" by simp
      then show ?thesis by blast
    qed
  qed
qed

lemma str_join_before:
  assumes "b \<in> set ys"
  shows "text_before a b (str_join sep (xs @ a # ys))"
proof -
  from assms have ne: "ys \<noteq> []" by auto
  from str_join_mem[OF assms] obtain p s where ps: "str_join sep ys = p @ b @ s" by blast
  have tail: "str_join sep (a # ys) = a @ (sep @ p) @ b @ s"
    using ne ps by (simp add: str_join_Cons)
  have "\<exists>pre. str_join sep (xs @ a # ys) = pre @ a @ (sep @ p) @ b @ s"
  proof (cases "xs = []")
    case True
    with tail have "str_join sep (xs @ a # ys) = [] @ a @ (sep @ p) @ b @ s" by simp
    then show ?thesis by blast
  next
    case False
    then have "str_join sep (xs @ a # ys) = str_join sep xs @ sep @ str_join sep (a # ys)"
      by (simp add: str_join_append)
    with tail have "str_join sep (xs @ a # ys) = (str_join sep xs @ sep) @ a @ (sep @ p) @ b @ s"
      by simp
    then show ?thesis by blast
  qed
  then show ?thesis unfolding text_before_iff by blast
qed

section \<open>The shape of the complete script\<close>

lemma complete_loop_blocks:
  "complete_loop g insp ts acc = acc @ concat (map (table_block g insp) ts)"
  by (induction ts arbitrary: acc) (simp_all add: table_block_def Let_def)

lemma complete_ddl_parts_blocks:
  "complete_ddl_parts g insp =
     preamble g @ concat (map (table_block g insp) (get_table_names insp)) @ postamble g"
  by (cases g) (simp_all add: complete_loop_blocks preamble_def postamble_def)

lemma fk_in_block: "f \<in> set (get_foreign_keys_ddl g insp t) \<Longrightarrow> f \<in> set (table_block g insp t)"
  by (auto simp: table_block_def)

section \<open>Order of the statements in the complete script\<close>

text \<open>
  Claim C1 asks that the complete script place every \<^verbatim>\<open>CREATE TABLE\<close> statement before
  any \<^verbatim>\<open>ALTER TABLE ... ADD CONSTRAINT\<close> statement, so that the referenced table of a
  foreign key is created before the constraint, whatever the order of \<^verbatim>\<open>get_table_names\<close>.
  The three classes emit table by table. On the snapshot \<open>shop\<close>, which lists
  \<^verbatim>\<open>orders\<close> before \<^verbatim>\<open>customers\<close>, the statement creating \<^verbatim>\<open>customers\<close> does not
  occur before the foreign key of \<^verbatim>\<open>orders\<close> that references it, in any of the three
  scripts: it occurs after it.
\<close>

theorem complete_ddl_interleaves_counterexample:
  "get_table_names shop = [''orders'', ''customers''] \<and>
   referred_table (hd (get_foreign_keys shop ''orders'' (get_schema_name ''orders''))) = ''customers'' \<and>
   \<not> text_before (get_table_ddl PostgreSQLDDLGenerator shop ''customers'')
         (hd (get_foreign_keys_ddl PostgreSQLDDLGenerator shop ''orders''))
         (get_complete_ddl PostgreSQLDDLGenerator shop) \<and>
   text_before (hd (get_foreign_keys_ddl PostgreSQLDDLGenerator shop ''orders''))
         (get_table_ddl PostgreSQLDDLGenerator shop ''customers'')
         (get_complete_ddl PostgreSQLDDLGenerator shop) \<and>
   \<not> text_before (get_table_ddl MySQLDDLGenerator shop ''customers'')
         (hd (get_foreign_keys_ddl MySQLDDLGenerator shop ''orders''))
         (get_complete_ddl MySQLDDLGenerator shop) \<and>
   text_before (hd (get_foreign_keys_ddl MySQLDDLGenerator shop ''orders''))
         (get_table_ddl MySQLDDLGenerator shop ''customers'')
         (get_complete_ddl MySQLDDLGenerator shop) \<and>
   \<not> text_before (get_table_ddl MSSQLDDLGenerator shop ''customers'')
         (hd (get_foreign_keys_ddl MSSQLDDLGenerator shop ''orders''))
         (get_complete_ddl MSSQLDDLGenerator shop) \<and>
   text_before (hd (get_foreign_keys_ddl MSSQLDDLGenerator shop ''orders''))
         (get_table_ddl MSSQLDDLGenerator shop ''customers'')
         (get_complete_ddl MSSQLDDLGenerator shop)"
  by code_simp

lemma create_before_later_fk:
  assumes i: "i \<le> j" and j: "j < length (get_table_names insp)"
    and f: "f \<in> set (get_foreign_keys_ddl g insp (get_table_names insp ! j))"
  shows "text_before (get_table_ddl g insp (get_table_names insp ! i)) f (get_complete_ddl g insp)"
proof -
  let ?ts = "get_table_names insp"
  let ?B = "table_block g insp"
  from i j have il: "i < length ?ts" by simp
  have split: "?ts = take i ?ts @ ?ts ! i # drop (Suc i) ?ts"
    by (rule id_take_nth_drop[OF il])
  define rest where "rest = tl (?B (?ts ! i)) @ concat (map ?B (drop (Suc i) ?ts)) @ postamble g"
  define front where "front = preamble g @ concat (map ?B (take i ?ts))"
  have blk: "?B (?ts ! i) = get_table_ddl g insp (?ts ! i) # tl (?B (?ts ! i))"
    by (simp add: table_block_def)
  have "concat (map ?B ?ts) =
        concat (map ?B (take i ?ts)) @ ?B (?ts ! i) @ concat (map ?B (drop (Suc i) ?ts))"
    by (subst split) simp
  then have parts: "complete_ddl_parts g insp = front @ get_table_ddl g insp (?ts ! i) # rest"
    unfolding complete_ddl_parts_blocks front_def rest_def using blk by simp
  have "f \<in> set rest"
  proof (cases "i = j")
    case True
    with f have "f \<in> set (tl (?B (?ts ! i)))"
      by (auto simp: table_block_def)
    then show ?thesis by (simp add: rest_def)
  next
    case False
    with i have "Suc i \<le> j" by simp
    with j have "j - Suc i < length (drop (Suc i) ?ts)"
      and "drop (Suc i) ?ts ! (j - Suc i) = ?ts ! j" by simp_all
    then have "?ts ! j \<in> set (drop (Suc i) ?ts)"
      by (metis nth_mem)
    with fk_in_block[OF f] show ?thesis by (auto simp: rest_def)
  qed
  then show ?thesis unfolding get_complete_ddl_def parts by (rule str_join_before)
qed

text \<open>
  Claim C1, as the code has it: the script is the join of the opening entries, then one
  group per table in the order of \<^verbatim>\<open>get_table_names\<close>, then the closing entries; the
  group of a table is its \<^verbatim>\<open>CREATE TABLE\<close> statement, then its \<^verbatim>\<open>CREATE INDEX\<close>
  statements if it has any, then its \<^verbatim>\<open>ALTER TABLE\<close> statements if it has any. Hence
  the \<^verbatim>\<open>CREATE TABLE\<close> statement of the table listed at position \<open>i\<close> occurs in the
  script before every foreign-key statement of the table listed at position \<open>j\<close>, for
  \<open>i \<le> j\<close>: a foreign key is preceded by the creation of its own table and of every
  table listed earlier.
\<close>

theorem complete_ddl_enumeration_order:
  "get_complete_ddl g insp =
     str_join nl
       (preamble g @
        concat (map (\<lambda>t. [get_table_ddl g insp t, nl] @
                          (if get_indexes_ddl g insp t \<noteq> []
                           then get_indexes_ddl g insp t @ [nl] else []) @
                          (if get_foreign_keys_ddl g insp t \<noteq> []
                           then get_foreign_keys_ddl g insp t @ [nl] else []))
                    (get_table_names insp)) @
        postamble g) \<and>
   (\<forall>i j f. i \<le> j \<longrightarrow> j < length (get_table_names insp) \<longrightarrow>
      f \<in> set (get_foreign_keys_ddl g insp (get_table_names insp ! j)) \<longrightarrow>
      text_before (get_table_ddl g insp (get_table_names insp ! i)) f (get_complete_ddl g insp))"
proof -
  have blk: "table_block g insp =
      (\<lambda>t. [get_table_ddl g insp t, nl] @
            (if get_indexes_ddl g insp t \<noteq> [] then get_indexes_ddl g insp t @ [nl] else []) @
            (if get_foreign_keys_ddl g insp t \<noteq> []
             then get_foreign_keys_ddl g insp t @ [nl] else []))"
    by (rule ext) (simp only: table_block_def)
  have shape: "get_complete_ddl g insp =
      str_join nl (preamble g @ concat (map (table_block g insp) (get_table_names insp)) @
                   postamble g)"
    by (simp only: get_complete_ddl_def complete_ddl_parts_blocks)
  from shape have s: "get_complete_ddl g insp =
     str_join nl
       (preamble g @
        concat (map (\<lambda>t. [get_table_ddl g insp t, nl] @
                          (if get_indexes_ddl g insp t \<noteq> []
                           then get_indexes_ddl g insp t @ [nl] else []) @
                          (if get_foreign_keys_ddl g insp t \<noteq> []
                           then get_foreign_keys_ddl g insp t @ [nl] else []))
                    (get_table_names insp)) @
        postamble g)"
    unfolding blk .
  have o: "\<forall>i j f. i \<le> j \<longrightarrow> j < length (get_table_names insp) \<longrightarrow>
      f \<in> set (get_foreign_keys_ddl g insp (get_table_names insp ! j)) \<longrightarrow>
      text_before (get_table_ddl g insp (get_table_names insp ! i)) f (get_complete_ddl g insp)"
    using create_before_later_fk by blast
  from s o show ?thesis by (rule conjI)
qed

theorem complete_ddl_enumeration_order_witness:
  "get_complete_ddl PostgreSQLDDLGenerator shop =
     ''CREATE TABLE orders (id INTEGER, customer_id INTEGER)'' @ nl @ nl @ nl @
     ''CREATE INDEX ix_orders_customer ON orders (customer_id);'' @ nl @ nl @ nl @
     ''ALTER TABLE orders ADD CONSTRAINT fk_orders_customer FOREIGN KEY (customer_id) REFERENCES customers (id);'' @ nl @ nl @ nl @
     ''CREATE TABLE customers (id INTEGER, email TEXT)'' @ nl @ nl @ nl @
     ''CREATE UNIQUE INDEX uq_customers_email ON customers (email, id);'' @ nl @ nl \<and>
   (0::nat) \<le> 1 \<and> 1 < length (get_table_names shop_sorted) \<and>
   get_table_names shop_sorted ! 0 = ''customers'' \<and>
   get_table_names shop_sorted ! 1 = ''orders'' \<and>
   hd (get_foreign_keys_ddl MSSQLDDLGenerator shop_sorted ''orders'')
     \<in> set (get_foreign_keys_ddl MSSQLDDLGenerator shop_sorted (get_table_names shop_sorted ! 1)) \<and>
   text_before (get_table_ddl MSSQLDDLGenerator shop_sorted ''customers'')
     (hd (get_foreign_keys_ddl MSSQLDDLGenerator shop_sorted ''orders''))
     (get_complete_ddl MSSQLDDLGenerator shop_sorted)"
proof -
  have h1: "(0::nat) \<le> 1" by simp
  have h2: "1 < length (get_table_names shop_sorted)" by (simp add: shop_sorted_def shop_def)
  have h3: "hd (get_foreign_keys_ddl MSSQLDDLGenerator shop_sorted ''orders'')
     \<in> set (get_foreign_keys_ddl MSSQLDDLGenerator shop_sorted (get_table_names shop_sorted ! 1))"
    by (simp add: shop_sorted_def shop_def get_schema_name_def)
  have n0: "get_table_names shop_sorted ! 0 = ''customers''"
    and n1: "get_table_names shop_sorted ! 1 = ''orders''" by (simp_all add: shop_sorted_def shop_def)
  note thm_sorted = complete_ddl_enumeration_order[of MSSQLDDLGenerator shop_sorted]
  from thm_sorted h1 h2 h3
  have "text_before (get_table_ddl MSSQLDDLGenerator shop_sorted (get_table_names shop_sorted ! 0))
     (hd (get_foreign_keys_ddl MSSQLDDLGenerator shop_sorted ''orders''))
     (get_complete_ddl MSSQLDDLGenerator shop_sorted)" by blast
  then have tb: "text_before (get_table_ddl MSSQLDDLGenerator shop_sorted ''customers'')
     (hd (get_foreign_keys_ddl MSSQLDDLGenerator shop_sorted ''orders''))
     (get_complete_ddl MSSQLDDLGenerator shop_sorted)" by (simp only: n0)
  have ev: "str_join nl
       (preamble PostgreSQLDDLGenerator @
        concat (map (\<lambda>t. [get_table_ddl PostgreSQLDDLGenerator shop t, nl] @
                          (if get_indexes_ddl PostgreSQLDDLGenerator shop t \<noteq> []
                           then get_indexes_ddl PostgreSQLDDLGenerator shop t @ [nl] else []) @
                          (if get_foreign_keys_ddl PostgreSQLDDLGenerator shop t \<noteq> []
                           then get_foreign_keys_ddl PostgreSQLDDLGenerator shop t @ [nl] else []))
                    (get_table_names shop)) @
        postamble PostgreSQLDDLGenerator) =
     ''CREATE TABLE orders (id INTEGER, customer_id INTEGER)'' @ nl @ nl @ nl @
     ''CREATE INDEX ix_orders_customer ON orders (customer_id);'' @ nl @ nl @ nl @
     ''ALTER TABLE orders ADD CONSTRAINT fk_orders_customer FOREIGN KEY (customer_id) REFERENCES customers (id);'' @ nl @ nl @ nl @
     ''CREATE TABLE customers (id INTEGER, email TEXT)'' @ nl @ nl @ nl @
     ''CREATE UNIQUE INDEX uq_customers_email ON customers (email, id);'' @ nl @ nl"
    by code_simp
  from complete_ddl_enumeration_order[of PostgreSQLDDLGenerator shop]
  have "get_complete_ddl PostgreSQLDDLGenerator shop =
     str_join nl
       (preamble PostgreSQLDDLGenerator @
        concat (map (\<lambda>t. [get_table_ddl PostgreSQLDDLGenerator shop t, nl] @
                          (if get_indexes_ddl PostgreSQLDDLGenerator shop t \<noteq> []
                           then get_indexes_ddl PostgreSQLDDLGenerator shop t @ [nl] else []) @
                          (if get_foreign_keys_ddl PostgreSQLDDLGenerator shop t \<noteq> []
                           then get_foreign_keys_ddl PostgreSQLDDLGenerator shop t @ [nl] else []))
                    (get_table_names shop)) @
        postamble PostgreSQLDDLGenerator)" by (rule conjunct1)
  then have script: "get_complete_ddl PostgreSQLDDLGenerator shop =
     ''CREATE TABLE orders (id INTEGER, customer_id INTEGER)'' @ nl @ nl @ nl @
     ''CREATE INDEX ix_orders_customer ON orders (customer_id);'' @ nl @ nl @ nl @
     ''ALTER TABLE orders ADD CONSTRAINT fk_orders_customer FOREIGN KEY (customer_id) REFERENCES customers (id);'' @ nl @ nl @ nl @
     ''CREATE TABLE customers (id INTEGER, email TEXT)'' @ nl @ nl @ nl @
     ''CREATE UNIQUE INDEX uq_customers_email ON customers (email, id);'' @ nl @ nl"
    using ev by (rule trans)
  from script h1 h2 n0 n1 h3 tb show ?thesis by blast
qed

section \<open>The script of an empty schema\<close>

text \<open>
  Claim C10: when \<^verbatim>\<open>get_table_names\<close> returns the empty list, the MySQL class returns its
  two bracketing statements joined by a line feed, the SQL Server class its opening
  statement alone, and the PostgreSQL class the empty string.
\<close>

theorem empty_schema_complete_ddl:
  "get_table_names insp = [] \<Longrightarrow>
     get_complete_ddl MySQLDDLGenerator insp =
       ''SET FOREIGN_KEY_CHECKS=0;'' @ nl @ nl @ ''SET FOREIGN_KEY_CHECKS=1;'' @ nl \<and>
     get_complete_ddl MSSQLDDLGenerator insp = ''SET NOCOUNT ON;'' @ nl \<and>
     get_complete_ddl PostgreSQLDDLGenerator insp = []"
  by (simp add: get_complete_ddl_def)

theorem empty_schema_complete_ddl_witness:
  "get_table_names no_tables = [] \<and>
   get_complete_ddl MySQLDDLGenerator no_tables =
     ''SET FOREIGN_KEY_CHECKS=0;'' @ nl @ nl @ ''SET FOREIGN_KEY_CHECKS=1;'' @ nl \<and>
   get_complete_ddl MSSQLDDLGenerator no_tables = ''SET NOCOUNT ON;'' @ nl \<and>
   get_complete_ddl PostgreSQLDDLGenerator no_tables = []"
proof -
  have h: "get_table_names no_tables = []" by (simp add: no_tables_def)
  from empty_schema_complete_ddl[OF h] h show ?thesis by simp
qed

section \<open>Selecting the generator\<close>

text \<open>
  Claim C2 asks that a connection string of no supported dialect be refused with an error
  that names the unrecognized tag. The error raised is a \<^verbatim>\<open>ValueError\<close> with one fixed
  message: for \<^verbatim>\<open>sqlite:///app.db\<close> the message contains neither the tag \<^verbatim>\<open>sqlite\<close>
  nor the connection string.
\<close>

theorem unsupported_message_counterexample:
  "create_ddl_generator shop_connect ''sqlite:///app.db'' =
     Inl (ValueError ''Unsupported database type. Use PostgreSQL, MySQL, or MSSQL.'') \<and>
   \<not> str_contains ''sqlite'' ''Unsupported database type. Use PostgreSQL, MySQL, or MSSQL.'' \<and>
   \<not> str_contains ''sqlite:///app.db'' ''Unsupported database type. Use PostgreSQL, MySQL, or MSSQL.''"
  by (simp add: create_ddl_generator_def)

text \<open>
  Claim C2, as the code has it: the class is chosen from the connection string alone, and a
  call has exactly one of three outcomes. It raises the \<^verbatim>\<open>ValueError\<close> with the fixed
  message exactly when none of the tags \<^verbatim>\<open>postgresql\<close>, \<^verbatim>\<open>mysql\<close>, \<^verbatim>\<open>mssql\<close> occurs in
  the string, and then no constructor runs. When a tag occurs it runs the constructor of the
  class of the first tag, in this order, that occurs in the string, on that same string:
  it returns the object built, or the exception raised inside the constructor leaves the
  call.
\<close>

theorem create_ddl_generator_outcomes:
  "(create_ddl_generator connect s = Inl (ValueError m) \<longleftrightarrow>
      m = ''Unsupported database type. Use PostgreSQL, MySQL, or MSSQL.'' \<and>
      \<not> sublist ''postgresql'' s \<and> \<not> sublist ''mysql'' s \<and> \<not> sublist ''mssql'' s) \<and>
   (create_ddl_generator connect s = Inl (Raised x) \<longleftrightarrow>
      connect s = Inl x \<and>
      (sublist ''postgresql'' s \<or> sublist ''mysql'' s \<or> sublist ''mssql'' s)) \<and>
   (create_ddl_generator connect s = Inr (g, insp) \<longleftrightarrow>
      connect s = Inr insp \<and>
      (g = PostgreSQLDDLGenerator \<and> sublist ''postgresql'' s \<or>
       g = MySQLDDLGenerator \<and> sublist ''mysql'' s \<and> \<not> sublist ''postgresql'' s \<or>
       g = MSSQLDDLGenerator \<and> sublist ''mssql'' s \<and> \<not> sublist ''postgresql'' s
         \<and> \<not> sublist ''mysql'' s))"
proof -
  have v: "create_ddl_generator connect s = Inl (ValueError m) \<longleftrightarrow>
      m = ''Unsupported database type. Use PostgreSQL, MySQL, or MSSQL.'' \<and>
      \<not> sublist ''postgresql'' s \<and> \<not> sublist ''mysql'' s \<and> \<not> sublist ''mssql'' s"
    by (auto simp: create_ddl_generator_def init_def str_contains_sublist split: sum.splits)
  have r: "create_ddl_generator connect s = Inl (Raised x) \<longleftrightarrow>
      connect s = Inl x \<and>
      (sublist ''postgresql'' s \<or> sublist ''mysql'' s \<or> sublist ''mssql'' s)"
    by (auto simp: create_ddl_generator_def init_def str_contains_sublist split: sum.splits)
  have o: "create_ddl_generator connect s = Inr (g, insp) \<longleftrightarrow>
      connect s = Inr insp \<and>
      (g = PostgreSQLDDLGenerator \<and> sublist ''postgresql'' s \<or>
       g = MySQLDDLGenerator \<and> sublist ''mysql'' s \<and> \<not> sublist ''postgresql'' s \<or>
       g = MSSQLDDLGenerator \<and> sublist ''mssql'' s \<and> \<not> sublist ''postgresql'' s
         \<and> \<not> sublist ''mysql'' s)"
    by (auto simp: create_ddl_generator_def init_def str_contains_sublist split: sum.splits)
  from v r o show ?thesis by blast
qed

theorem create_ddl_generator_outcomes_witness:
  "create_ddl_generator shop_connect ''sqlite:///app.db'' =
     Inl (ValueError ''Unsupported database type. Use PostgreSQL, MySQL, or MSSQL.'') \<and>
   shop_connect ''postgresql'' = Inl ''ArgumentError'' \<and>
   create_ddl_generator shop_connect ''postgresql'' = Inl (Raised ''ArgumentError'') \<and>
   shop_connect ''mssql+pyodbc://sa@host/shop'' = Inr shop \<and>
   create_ddl_generator shop_connect ''mssql+pyodbc://sa@host/shop'' =
     Inr (MSSQLDDLGenerator, shop)"
proof -
  have a: "\<not> sublist ''postgresql'' ''sqlite:///app.db'' \<and> \<not> sublist ''mysql'' ''sqlite:///app.db''
      \<and> \<not> sublist ''mssql'' ''sqlite:///app.db''"
    unfolding str_contains_sublist[symmetric] by code_simp
  have b: "MSSQLDDLGenerator = PostgreSQLDDLGenerator \<and> sublist ''postgresql'' ''mssql+pyodbc://sa@host/shop'' \<or>
       MSSQLDDLGenerator = MySQLDDLGenerator \<and> sublist ''mysql'' ''mssql+pyodbc://sa@host/shop''
         \<and> \<not> sublist ''postgresql'' ''mssql+pyodbc://sa@host/shop'' \<or>
       MSSQLDDLGenerator = MSSQLDDLGenerator \<and> sublist ''mssql'' ''mssql+pyodbc://sa@host/shop''
         \<and> \<not> sublist ''postgresql'' ''mssql+pyodbc://sa@host/shop''
         \<and> \<not> sublist ''mysql'' ''mssql+pyodbc://sa@host/shop''"
    unfolding str_contains_sublist[symmetric] by code_simp
  have c: "sublist ''postgresql'' ''postgresql'' \<or> sublist ''mysql'' ''postgresql''
      \<or> sublist ''mssql'' ''postgresql''"
    unfolding str_contains_sublist[symmetric] by code_simp
  have d: "shop_connect ''postgresql'' = Inl ''ArgumentError''"
    and e: "shop_connect ''mssql+pyodbc://sa@host/shop'' = Inr shop"
    by (simp_all add: shop_connect_def)
  note t1 = create_ddl_generator_outcomes[of shop_connect "''sqlite:///app.db''"
      "''Unsupported database type. Use PostgreSQL, MySQL, or MSSQL.''", THEN conjunct1]
  note t2 = create_ddl_generator_outcomes[of shop_connect "''postgresql''" _ "''ArgumentError''",
      THEN conjunct2, THEN conjunct1]
  note t3 = create_ddl_generator_outcomes[of shop_connect "''mssql+pyodbc://sa@host/shop''" _ _
      MSSQLDDLGenerator shop, THEN conjunct2, THEN conjunct2]
  have w1: "create_ddl_generator shop_connect ''sqlite:///app.db'' =
     Inl (ValueError ''Unsupported database type. Use PostgreSQL, MySQL, or MSSQL.'')"
    by (rule iffD2[OF t1]) (rule conjI[OF refl a])
  have w2: "create_ddl_generator shop_connect ''postgresql'' = Inl (Raised ''ArgumentError'')"
    by (rule iffD2[OF t2]) (rule conjI[OF d c])
  have w3: "create_ddl_generator shop_connect ''mssql+pyodbc://sa@host/shop'' =
     Inr (MSSQLDDLGenerator, shop)"
    by (rule iffD2[OF t3]) (rule conjI[OF e b])
  from w1 d w2 e w3 show ?thesis by (intro conjI)
qed



section \<open>Empty categories and index statements\<close>

text \<open>
  Claim C3: for a table whose index list is empty, \<^verbatim>\<open>get_indexes_ddl\<close> returns the empty
  list and the pass of the complete script's loop for that table appends the table
  statement, a line feed entry and the foreign-key group only; for a table whose foreign-key
  list is empty, \<^verbatim>\<open>get_foreign_keys_ddl\<close> returns the empty list and the pass appends the
  table statement, a line feed entry and the index group only. This holds for the three
  classes.
\<close>

theorem empty_category_omission:
  "(get_indexes insp t (get_schema_name t) = [] \<longrightarrow>
      get_indexes_ddl g insp t = [] \<and>
      complete_loop g insp (t # ts) acc =
        complete_loop g insp ts
          (acc @ [get_table_ddl g insp t, nl] @
           (if get_foreign_keys_ddl g insp t = [] then []
            else get_foreign_keys_ddl g insp t @ [nl]))) \<and>
   (get_foreign_keys insp t (get_schema_name t) = [] \<longrightarrow>
      get_foreign_keys_ddl g insp t = [] \<and>
      complete_loop g insp (t # ts) acc =
        complete_loop g insp ts
          (acc @ [get_table_ddl g insp t, nl] @
           (if get_indexes_ddl g insp t = [] then []
            else get_indexes_ddl g insp t @ [nl])))"
  by (cases g) (simp_all add: Let_def)

theorem empty_category_omission_witness:
  "get_indexes shop ''audit'' (get_schema_name ''audit'') = [] \<and>
   get_indexes_ddl MySQLDDLGenerator shop ''audit'' = [] \<and>
   get_foreign_keys shop ''customers'' (get_schema_name ''customers'') = [] \<and>
   get_foreign_keys_ddl MSSQLDDLGenerator shop ''customers'' = [] \<and>
   complete_loop MSSQLDDLGenerator shop [''customers''] [] =
     [''CREATE TABLE customers (id INTEGER, email TEXT)'', nl,
      ''CREATE UNIQUE INDEX uq_customers_email ON customers (email, id) WITH (ONLINE = ON);'', nl]"
proof -
  have a: "get_indexes shop ''audit'' (get_schema_name ''audit'') = []"
    by (simp add: shop_def)
  have b: "get_foreign_keys shop ''customers'' (get_schema_name ''customers'') = []"
    by (simp add: shop_def)
  have c: "get_table_ddl MSSQLDDLGenerator shop ''customers'' =
      ''CREATE TABLE customers (id INTEGER, email TEXT)''"
    by (simp add: shop_def)
  have d: "get_indexes_ddl MSSQLDDLGenerator shop ''customers'' =
      [''CREATE UNIQUE INDEX uq_customers_email ON customers (email, id) WITH (ONLINE = ON);'']"
    by (simp add: shop_def get_schema_name_def)
  from a b
    empty_category_omission[of shop "''audit''" MySQLDDLGenerator "[]" "[]"]
    empty_category_omission[of shop "''customers''" MSSQLDDLGenerator "[]" "[]"]
  have "get_indexes_ddl MySQLDDLGenerator shop ''audit'' = []"
    and "get_foreign_keys_ddl MSSQLDDLGenerator shop ''customers'' = []"
    and "complete_loop MSSQLDDLGenerator shop [''customers''] [] =
         complete_loop MSSQLDDLGenerator shop []
          ([] @ [get_table_ddl MSSQLDDLGenerator shop ''customers'', nl] @
           (if get_indexes_ddl MSSQLDDLGenerator shop ''customers'' = [] then []
            else get_indexes_ddl MSSQLDDLGenerator shop ''customers'' @ [nl]))"
    by blast+
  with a b c d show ?thesis by simp
qed

text \<open>
  Claim C4: in each of the three classes, \<^verbatim>\<open>get_indexes_ddl\<close> renders one statement per
  index descriptor, and the statement carries the keyword \<^verbatim>\<open>UNIQUE\<close> between
  \<^verbatim>\<open>CREATE\<close> and \<^verbatim>\<open>INDEX\<close> if and only if the descriptor's \<^verbatim>\<open>unique\<close> flag is set:
  it begins \<^verbatim>\<open>CREATE UNIQUE INDEX\<close> when the flag is set and \<^verbatim>\<open>CREATE INDEX\<close> when it is
  not.
\<close>

theorem unique_keyword_iff_flag:
  "length (get_indexes_ddl g insp t) = length (get_indexes insp t (get_schema_name t)) \<and>
   (\<forall>k < length (get_indexes insp t (get_schema_name t)).
      (prefix ''CREATE UNIQUE INDEX '' (get_indexes_ddl g insp t ! k)
         \<longleftrightarrow> unique (get_indexes insp t (get_schema_name t) ! k)) \<and>
      (prefix ''CREATE INDEX '' (get_indexes_ddl g insp t ! k)
         \<longleftrightarrow> \<not> unique (get_indexes insp t (get_schema_name t) ! k)))"
  by (cases g) (simp_all add: Let_def)

theorem unique_keyword_iff_flag_witness:
  "(0::nat) < length (get_indexes shop ''customers'' (get_schema_name ''customers'')) \<and>
   unique (get_indexes shop ''customers'' (get_schema_name ''customers'') ! 0) \<and>
   prefix ''CREATE UNIQUE INDEX '' (get_indexes_ddl PostgreSQLDDLGenerator shop ''customers'' ! 0) \<and>
   (0::nat) < length (get_indexes shop ''orders'' (get_schema_name ''orders'')) \<and>
   \<not> unique (get_indexes shop ''orders'' (get_schema_name ''orders'') ! 0) \<and>
   \<not> prefix ''CREATE UNIQUE INDEX '' (get_indexes_ddl MySQLDDLGenerator shop ''orders'' ! 0) \<and>
   prefix ''CREATE INDEX '' (get_indexes_ddl MySQLDDLGenerator shop ''orders'' ! 0)"
proof -
  have a: "(0::nat) < length (get_indexes shop ''customers'' (get_schema_name ''customers''))"
    and b: "unique (get_indexes shop ''customers'' (get_schema_name ''customers'') ! 0)"
    and c: "(0::nat) < length (get_indexes shop ''orders'' (get_schema_name ''orders''))"
    and d: "\<not> unique (get_indexes shop ''orders'' (get_schema_name ''orders'') ! 0)"
    by (simp_all add: shop_def)
  from a b c d
    unique_keyword_iff_flag[of PostgreSQLDDLGenerator shop "''customers''"]
    unique_keyword_iff_flag[of MySQLDDLGenerator shop "''orders''"]
  show ?thesis by blast
qed

text \<open>
  Claim C7 asks that an index descriptor without a dialect-specific kind be rendered with
  the dialect's default clause, never without a clause. The PostgreSQL class renders no
  clause at all: for the index of \<^verbatim>\<open>orders\<close>, which has no kind, its statement ends with
  the column list.
\<close>

theorem index_clause_omitted_counterexample:
  "mysql_type (hd (get_indexes shop ''orders'' (get_schema_name ''orders''))) = None \<and>
   get_indexes_ddl PostgreSQLDDLGenerator shop ''orders'' =
     [''CREATE INDEX ix_orders_customer ON orders (customer_id);'']"
  by code_simp

text \<open>
  Claim C7, as the code has it: for a descriptor without \<^verbatim>\<open>mysql_type\<close> the MySQL class
  renders \<^verbatim>\<open>USING BTREE\<close>, and \<^verbatim>\<open>USING\<close> followed by the kind when there is one; the
  SQL Server class always renders \<^verbatim>\<open>WITH (ONLINE = ON)\<close>; the PostgreSQL class renders no
  dialect clause, its statement ends with the column list.
\<close>

theorem index_kind_default:
  "\<forall>k < length (get_indexes insp t (get_schema_name t)).
      (mysql_type (get_indexes insp t (get_schema_name t) ! k) = None \<longrightarrow>
         suffix '' USING BTREE;'' (get_indexes_ddl MySQLDDLGenerator insp t ! k)) \<and>
      (\<forall>kind. mysql_type (get_indexes insp t (get_schema_name t) ! k) = Some kind \<longrightarrow>
         suffix ('' USING '' @ kind @ '';'') (get_indexes_ddl MySQLDDLGenerator insp t ! k)) \<and>
      suffix '' WITH (ONLINE = ON);'' (get_indexes_ddl MSSQLDDLGenerator insp t ! k) \<and>
      suffix ('' ('' @ str_join '', '' (column_names (get_indexes insp t (get_schema_name t) ! k)) @ '');'')
        (get_indexes_ddl PostgreSQLDDLGenerator insp t ! k)"
proof (intro allI impI)
  fix k assume k: "k < length (get_indexes insp t (get_schema_name t))"
  let ?ix = "get_indexes insp t (get_schema_name t) ! k"
  define front where "front = ''CREATE '' @ (if unique ?ix then ''UNIQUE '' else []) @ ''INDEX '' @
      index_name ?ix @ '' ON '' @ t"
  define cols where "cols = '' ('' @ str_join '', '' (column_names ?ix) @ '')''"
  have my: "get_indexes_ddl MySQLDDLGenerator insp t ! k =
      (front @ cols) @
      ('' USING '' @ (case mysql_type ?ix of Some kd \<Rightarrow> kd | None \<Rightarrow> ''BTREE'') @ '';'')"
    using k by (simp add: Let_def front_def cols_def)
  have ms: "get_indexes_ddl MSSQLDDLGenerator insp t ! k = (front @ cols) @ '' WITH (ONLINE = ON);''"
    using k by (simp add: Let_def front_def cols_def)
  have pg: "get_indexes_ddl PostgreSQLDDLGenerator insp t ! k =
      front @ ('' ('' @ str_join '', '' (column_names ?ix) @ '');'')"
    using k by (simp add: Let_def front_def)
  have a: "suffix '' USING BTREE;'' (get_indexes_ddl MySQLDDLGenerator insp t ! k)"
    if "mysql_type ?ix = None"
  proof -
    from my that have "get_indexes_ddl MySQLDDLGenerator insp t ! k = (front @ cols) @ '' USING BTREE;''"
      by simp
    then show ?thesis by (rule suffixI)
  qed
  have b: "suffix ('' USING '' @ kind @ '';'') (get_indexes_ddl MySQLDDLGenerator insp t ! k)"
    if "mysql_type ?ix = Some kind" for kind
  proof -
    from my that have "get_indexes_ddl MySQLDDLGenerator insp t ! k =
        (front @ cols) @ ('' USING '' @ kind @ '';'')"
      by simp
    then show ?thesis by (rule suffixI)
  qed
  have c: "suffix '' WITH (ONLINE = ON);'' (get_indexes_ddl MSSQLDDLGenerator insp t ! k)"
    using ms by (rule suffixI)
  have d: "suffix ('' ('' @ str_join '', '' (column_names ?ix) @ '');'')
        (get_indexes_ddl PostgreSQLDDLGenerator insp t ! k)"
    using pg by (rule suffixI)
  from a b c d show "(mysql_type ?ix = None \<longrightarrow>
         suffix '' USING BTREE;'' (get_indexes_ddl MySQLDDLGenerator insp t ! k)) \<and>
      (\<forall>kind. mysql_type ?ix = Some kind \<longrightarrow>
         suffix ('' USING '' @ kind @ '';'') (get_indexes_ddl MySQLDDLGenerator insp t ! k)) \<and>
      suffix '' WITH (ONLINE = ON);'' (get_indexes_ddl MSSQLDDLGenerator insp t ! k) \<and>
      suffix ('' ('' @ str_join '', '' (column_names ?ix) @ '');'')
        (get_indexes_ddl PostgreSQLDDLGenerator insp t ! k)"
    by blast
qed

theorem index_kind_default_witness:
  "(0::nat) < length (get_indexes shop ''orders'' (get_schema_name ''orders'')) \<and>
   mysql_type (get_indexes shop ''orders'' (get_schema_name ''orders'') ! 0) = None \<and>
   suffix '' USING BTREE;'' (get_indexes_ddl MySQLDDLGenerator shop ''orders'' ! 0) \<and>
   (0::nat) < length (get_indexes shop ''customers'' (get_schema_name ''customers'')) \<and>
   mysql_type (get_indexes shop ''customers'' (get_schema_name ''customers'') ! 0) = Some ''HASH'' \<and>
   suffix '' USING HASH;'' (get_indexes_ddl MySQLDDLGenerator shop ''customers'' ! 0) \<and>
   suffix '' WITH (ONLINE = ON);'' (get_indexes_ddl MSSQLDDLGenerator shop ''customers'' ! 0) \<and>
   suffix '' (email, id);'' (get_indexes_ddl PostgreSQLDDLGenerator shop ''customers'' ! 0)"
proof -
  have a: "(0::nat) < length (get_indexes shop ''orders'' (get_schema_name ''orders''))"
    and b: "mysql_type (get_indexes shop ''orders'' (get_schema_name ''orders'') ! 0) = None"
    and c: "(0::nat) < length (get_indexes shop ''customers'' (get_schema_name ''customers''))"
    and d: "mysql_type (get_indexes shop ''customers'' (get_schema_name ''customers'') ! 0) = Some ''HASH''"
    and e: "column_names (get_indexes shop ''customers'' (get_schema_name ''customers'') ! 0)
              = [''email'', ''id'']"
    by (simp_all add: shop_def)
  from index_kind_default[of shop "''orders''"] a b
  have w1: "suffix '' USING BTREE;'' (get_indexes_ddl MySQLDDLGenerator shop ''orders'' ! 0)"
    by blast
  from index_kind_default[of shop "''customers''"] c d
  have w2: "suffix ('' USING '' @ ''HASH'' @ '';'') (get_indexes_ddl MySQLDDLGenerator shop ''customers'' ! 0)"
    and w3: "suffix '' WITH (ONLINE = ON);'' (get_indexes_ddl MSSQLDDLGenerator shop ''customers'' ! 0)"
    and w4: "suffix ('' ('' @ str_join '', ''
               (column_names (get_indexes shop ''customers'' (get_schema_name ''customers'') ! 0)) @ '');'')
             (get_indexes_ddl PostgreSQLDDLGenerator shop ''customers'' ! 0)"
    by blast+
  from w2 have w2b: "suffix '' USING HASH;'' (get_indexes_ddl MySQLDDLGenerator shop ''customers'' ! 0)"
    by simp
  from w4 have w4b: "suffix '' (email, id);'' (get_indexes_ddl PostgreSQLDDLGenerator shop ''customers'' ! 0)"
    unfolding e by simp
  from a b c d w1 w2b w3 w4b show ?thesis by blast
qed

section \<open>Table options and foreign-key actions\<close>

lemma option_clauses_Nil: "option_clauses [] = []"
  by (simp add: option_clauses_def)

text \<open>
  Claim C5: the PostgreSQL and SQL Server classes return the compiled \<^verbatim>\<open>CREATE TABLE\<close>
  text whatever the table options are. The MySQL class appends to it, after one space, the
  option clauses joined by spaces, and nothing when there is no clause. The clause list
  holds \<^verbatim>\<open>ENGINE=v\<close> exactly when \<^verbatim>\<open>mysql_engine\<close> is present with value \<open>v\<close>,
  \<^verbatim>\<open>CHARACTER SET v\<close> exactly when \<^verbatim>\<open>mysql_charset\<close> is, \<^verbatim>\<open>COLLATE v\<close> exactly when
  \<^verbatim>\<open>mysql_collate\<close> is, and no other entry.
\<close>

theorem table_options_only_mysql:
  "get_table_ddl PostgreSQLDDLGenerator (insp\<lparr>get_table_options := opts\<rparr>) t
     = compile_create_table insp t \<and>
   get_table_ddl MSSQLDDLGenerator (insp\<lparr>get_table_options := opts\<rparr>) t
     = compile_create_table insp t \<and>
   get_table_ddl MySQLDDLGenerator insp t =
     compile_create_table insp t @
       (if option_clauses (get_table_options insp t) = [] then []
        else '' '' @ str_join '' '' (option_clauses (get_table_options insp t))) \<and>
   (''ENGINE='' @ v \<in> set (option_clauses table_info)
      \<longleftrightarrow> map_of table_info ''mysql_engine'' = Some v) \<and>
   (''CHARACTER SET '' @ v \<in> set (option_clauses table_info)
      \<longleftrightarrow> map_of table_info ''mysql_charset'' = Some v) \<and>
   (''COLLATE '' @ v \<in> set (option_clauses table_info)
      \<longleftrightarrow> map_of table_info ''mysql_collate'' = Some v) \<and>
   length (option_clauses table_info) =
     (if map_of table_info ''mysql_engine'' = None then 0 else 1) +
     (if map_of table_info ''mysql_charset'' = None then 0 else 1) +
     (if map_of table_info ''mysql_collate'' = None then 0 else 1)"
proof -
  have my: "get_table_ddl MySQLDDLGenerator insp t =
     compile_create_table insp t @
       (if option_clauses (get_table_options insp t) = [] then []
        else '' '' @ str_join '' '' (option_clauses (get_table_options insp t)))"
  proof (cases "get_table_options insp t = []")
    case True
    then show ?thesis by (simp add: option_clauses_Nil)
  next
    case False
    then show ?thesis by (simp add: option_clauses_def Let_def)
  qed
  have e: "''ENGINE='' @ v \<in> set (option_clauses table_info)
      \<longleftrightarrow> map_of table_info ''mysql_engine'' = Some v"
    by (auto simp: option_clauses_def split: option.splits)
  have c: "''CHARACTER SET '' @ v \<in> set (option_clauses table_info)
      \<longleftrightarrow> map_of table_info ''mysql_charset'' = Some v"
    by (auto simp: option_clauses_def split: option.splits)
  have k: "''COLLATE '' @ v \<in> set (option_clauses table_info)
      \<longleftrightarrow> map_of table_info ''mysql_collate'' = Some v"
    by (auto simp: option_clauses_def split: option.splits)
  have l: "length (option_clauses table_info) =
     (if map_of table_info ''mysql_engine'' = None then 0 else 1) +
     (if map_of table_info ''mysql_charset'' = None then 0 else 1) +
     (if map_of table_info ''mysql_collate'' = None then 0 else 1)"
    by (simp add: option_clauses_def split: option.splits)
  show ?thesis using my e c k l by simp
qed

theorem table_options_only_mysql_witness:
  "get_table_ddl MySQLDDLGenerator shop ''orders'' =
     ''CREATE TABLE orders (id INTEGER, customer_id INTEGER) ENGINE=InnoDB CHARACTER SET utf8mb4'' \<and>
   get_table_ddl MySQLDDLGenerator shop ''customers'' =
     ''CREATE TABLE customers (id INTEGER, email TEXT)'' \<and>
   get_table_ddl PostgreSQLDDLGenerator shop ''orders'' =
     ''CREATE TABLE orders (id INTEGER, customer_id INTEGER)'' \<and>
   get_table_ddl MSSQLDDLGenerator shop ''orders'' =
     ''CREATE TABLE orders (id INTEGER, customer_id INTEGER)''"
proof -
  have s: "shop = shop\<lparr>get_table_options := get_table_options shop\<rparr>" by simp
  have o: "option_clauses (get_table_options shop ''orders'') =
             [''ENGINE=InnoDB'', ''CHARACTER SET utf8mb4'']"
    and c: "option_clauses (get_table_options shop ''customers'') = []"
    by (simp_all add: shop_def option_clauses_def)
  have cc: "compile_create_table shop ''orders'' =
              ''CREATE TABLE orders (id INTEGER, customer_id INTEGER)''"
    and cd: "compile_create_table shop ''customers'' =
              ''CREATE TABLE customers (id INTEGER, email TEXT)''"
    by (simp_all add: shop_def)
  from table_options_only_mysql[where insp = shop and opts = "get_table_options shop"
      and t = "''orders''"]
  have "get_table_ddl PostgreSQLDDLGenerator shop ''orders'' = compile_create_table shop ''orders''"
    and "get_table_ddl MSSQLDDLGenerator shop ''orders'' = compile_create_table shop ''orders''"
    and "get_table_ddl MySQLDDLGenerator shop ''orders'' =
     compile_create_table shop ''orders'' @
       (if option_clauses (get_table_options shop ''orders'') = [] then []
        else '' '' @ str_join '' '' (option_clauses (get_table_options shop ''orders'')))"
    using s by simp_all
  moreover from table_options_only_mysql[where insp = shop and t = "''customers''"]
  have "get_table_ddl MySQLDDLGenerator shop ''customers'' =
     compile_create_table shop ''customers'' @
       (if option_clauses (get_table_options shop ''customers'') = [] then []
        else '' '' @ str_join '' '' (option_clauses (get_table_options shop ''customers'')))"
    by simp
  ultimately show ?thesis by (simp add: o c cc cd)
qed

text \<open>
  Claim C6: the MySQL class renders, after the referenced columns, \<^verbatim>\<open>ON UPDATE\<close> with
  the action only when the descriptor has \<^verbatim>\<open>onupdate\<close>, \<^verbatim>\<open>ON DELETE\<close> with the action
  only when it has \<^verbatim>\<open>ondelete\<close>, and \<^verbatim>\<open>ON UPDATE\<close> before \<^verbatim>\<open>ON DELETE\<close> when it has
  both; the PostgreSQL and SQL Server classes render no action clause.
\<close>

theorem foreign_key_action_clauses:
  "get_foreign_keys_ddl MySQLDDLGenerator insp t =
     map (\<lambda>fk. fk_head t fk @ '' '' @ action_clauses fk @ '';'')
         (get_foreign_keys insp t (get_schema_name t)) \<and>
   get_foreign_keys_ddl PostgreSQLDDLGenerator insp t =
     map (\<lambda>fk. fk_head t fk @ '';'') (get_foreign_keys insp t (get_schema_name t)) \<and>
   get_foreign_keys_ddl MSSQLDDLGenerator insp t =
     map (\<lambda>fk. fk_head t fk @ '';'') (get_foreign_keys insp t (get_schema_name t))"
  by (simp add: fk_head_def action_clauses_def Let_def split: option.splits)

theorem foreign_key_action_clauses_witness:
  "get_foreign_keys_ddl MySQLDDLGenerator shop ''orders'' =
     [''ALTER TABLE orders ADD CONSTRAINT fk_orders_customer FOREIGN KEY (customer_id) REFERENCES customers (id) ON UPDATE CASCADE ON DELETE SET NULL;''] \<and>
   get_foreign_keys_ddl PostgreSQLDDLGenerator shop ''orders'' =
     [''ALTER TABLE orders ADD CONSTRAINT fk_orders_customer FOREIGN KEY (customer_id) REFERENCES customers (id);'']"
proof -
  have fks: "get_foreign_keys shop ''orders'' (get_schema_name ''orders'') =
     [\<lparr>fk_name = ''fk_orders_customer'', constrained_columns = [''customer_id''],
       referred_table = ''customers'', referred_columns = [''id''],
       onupdate = Some ''CASCADE'', ondelete = Some ''SET NULL''\<rparr>]"
    by (simp add: shop_def)
  from foreign_key_action_clauses[of shop "''orders''"] show ?thesis
    unfolding fks by (simp add: fk_head_def action_clauses_def)
qed

section \<open>Determinism of the complete script\<close>

lemma complete_loop_cong:
  assumes "\<forall>t \<in> set ts.
      compile_create_table a t = compile_create_table b t \<and>
      get_table_options a t = get_table_options b t \<and>
      get_indexes a t (get_schema_name t) = get_indexes b t (get_schema_name t) \<and>
      get_foreign_keys a t (get_schema_name t) = get_foreign_keys b t (get_schema_name t)"
  shows "complete_loop g a ts acc = complete_loop g b ts acc"
  using assms
proof (induction ts arbitrary: acc)
  case Nil
  then show ?case by simp
next
  case (Cons t ts)
  then have t: "compile_create_table a t = compile_create_table b t"
      "get_table_options a t = get_table_options b t"
      "get_indexes a t (get_schema_name t) = get_indexes b t (get_schema_name t)"
      "get_foreign_keys a t (get_schema_name t) = get_foreign_keys b t (get_schema_name t)"
    by simp_all
  have "get_table_ddl g a t = get_table_ddl g b t"
    using t by (cases g) simp_all
  moreover have "get_indexes_ddl g a t = get_indexes_ddl g b t"
    using t by (cases g) simp_all
  moreover have "get_foreign_keys_ddl g a t = get_foreign_keys_ddl g b t"
    using t by (cases g) simp_all
  moreover have "\<And>acc. complete_loop g a ts acc = complete_loop g b ts acc"
    using Cons by simp
  ultimately show ?case by (simp add: Let_def)
qed

text \<open>
  Claim C8: the complete script is a function of the schema snapshot. Two runs whose
  inspectors list the same tables and give, for each listed table, the same compiled
  \<^verbatim>\<open>CREATE TABLE\<close> text, table options, indexes and foreign keys return the same string,
  character for character.
\<close>

theorem complete_ddl_deterministic:
  assumes "get_table_names a = get_table_names b"
    and "\<forall>t \<in> set (get_table_names a).
      compile_create_table a t = compile_create_table b t \<and>
      get_table_options a t = get_table_options b t \<and>
      get_indexes a t (get_schema_name t) = get_indexes b t (get_schema_name t) \<and>
      get_foreign_keys a t (get_schema_name t) = get_foreign_keys b t (get_schema_name t)"
  shows "get_complete_ddl g a = get_complete_ddl g b"
proof -
  have "complete_ddl_parts g a = complete_ddl_parts g b"
    using assms(1) complete_loop_cong[OF assms(2)] by (cases g) simp_all
  then show ?thesis by (simp add: get_complete_ddl_def)
qed

theorem complete_ddl_deterministic_witness:
  "get_table_names shop = get_table_names shop_again \<and>
   compile_create_table shop ''audit'' \<noteq> compile_create_table shop_again ''audit'' \<and>
   get_complete_ddl MySQLDDLGenerator shop = get_complete_ddl MySQLDDLGenerator shop_again"
proof -
  have h1: "get_table_names shop = get_table_names shop_again"
    by (simp add: shop_again_def)
  have h2: "\<forall>t \<in> set (get_table_names shop).
      compile_create_table shop t = compile_create_table shop_again t \<and>
      get_table_options shop t = get_table_options shop_again t \<and>
      get_indexes shop t (get_schema_name t) = get_indexes shop_again t (get_schema_name t) \<and>
      get_foreign_keys shop t (get_schema_name t) = get_foreign_keys shop_again t (get_schema_name t)"
    by (simp add: shop_again_def shop_def)
  have d: "compile_create_table shop ''audit'' \<noteq> compile_create_table shop_again ''audit''"
    by (simp add: shop_again_def shop_def)
  from complete_ddl_deterministic[OF h1 h2, of MySQLDDLGenerator] h1 d show ?thesis by simp
qed

end
